theory Spec2Isabelle
  imports Main "HOL-Library.AList" "HOL-Library.Multiset" "HOL-Library.Product_Lexorder"
begin

section \<open>Values and objects\<close>

text \<open>
  The services pass plain JavaScript objects to the document store and read plain objects
  back. A field value is one of the kinds the listing and message documents use. A
  \<open>Timestamp\<close> is modelled by its value in milliseconds (what \<open>toMillis\<close> hands out);
  \<open>VServerTimestamp\<close> is the sentinel that \<open>serverTimestamp()\<close> returns; \<open>VUndefined\<close> is a
  property that is present with the value \<open>undefined\<close>; \<open>VMap\<close> is a nested object.
  JavaScript numbers are modelled as integers: the services only store and compare them.
\<close>

datatype fvalue =
    VUndefined
  | VNull
  | VBool bool
  | VNum int
  | VStr string
  | VArr "string list"
  | VTimestamp int
  | VServerTimestamp
  | VMap "(string \<times> fvalue) list"

text \<open>An object is the list of its own properties; \<open>map_of\<close> reads the one a key names.\<close>

type_synonym obj = "(string \<times> fvalue) list"

text \<open>\<open>o.k\<close>: reading a property that is absent gives \<open>undefined\<close>.\<close>

definition field :: "obj \<Rightarrow> string \<Rightarrow> fvalue" where
  "field ob k = (case map_of ob k of None \<Rightarrow> VUndefined | Some v \<Rightarrow> v)"

text \<open>\<open>!v\<close>: the values JavaScript takes for false.\<close>

fun falsy :: "fvalue \<Rightarrow> bool" where
  "falsy VUndefined = True"
| "falsy VNull = True"
| "falsy (VBool b) = (\<not> b)"
| "falsy (VNum n) = (n = 0)"
| "falsy (VStr s) = (s = [])"
| "falsy (VArr xs) = False"
| "falsy (VTimestamp t) = False"
| "falsy VServerTimestamp = False"
| "falsy (VMap m) = False"

datatype AdStatus = PENDING | ACTIVE | REJECTED

fun status_value :: "AdStatus \<Rightarrow> fvalue" where
  "status_value PENDING = VStr ''pending''"
| "status_value ACTIVE = VStr ''active''"
| "status_value REJECTED = VStr ''rejected''"

section \<open>The document store\<close>

text \<open>
  The store is the hosted database behind \<open>firebaseConfig\<close>; the repository holds no code of
  it. The model keeps, for every collection, its documents as pairs of identifier and data in
  the order in which the store enumerates them, the server's clock, and a log of the write
  requests the store has committed. The log is only there so that "no write" and "one batch"
  can be said about an operation.

  The model answers every request. It fails a write only for the reasons the store decides
  from the request and its own state: a value that is \<open>undefined\<close>, at any depth (the handle
  is made by \<open>getFirestore(app)\<close>, without \<open>ignoreUndefinedProperties\<close>), a field name or
  field path that the store does not allow, an update of a document that does not exist, and
  an add under an identifier that is taken. Network, permission and quota failures are
  outside the model, and the indexes that the queries need are taken to exist.
\<close>

datatype write_request =
    AddDoc string string obj
  | UpdateDoc string string obj
  | Batch "(string \<times> string \<times> obj) list"

record firestore =
  docs :: "string \<Rightarrow> (string \<times> obj) list"
  serverTime :: int
  writeLog :: "write_request list"

datatype status_code = InvalidArgument | NotFound | AlreadyExists

datatype error = Error string | FirebaseError status_code

text \<open>What the browser contributes: the random draws of the identifier generator and
  \<open>Date.now()\<close>.\<close>

record client =
  random :: "nat \<Rightarrow> nat"
  dateNow :: int

definition autoIdChars :: string where
  "autoIdChars = ''ABCDEFGHIJKLMNOPQRSTUVWXYZabcdefghijklmnopqrstuvwxyz0123456789''"

text \<open>The SDK names a new document with 20 characters drawn from \<open>autoIdChars\<close>;
  \<open>rnd i\<close> is the \<open>i\<close>-th accepted draw.\<close>

definition autoId :: "(nat \<Rightarrow> nat) \<Rightarrow> string" where
  "autoId rnd = map (\<lambda>i. autoIdChars ! (rnd i mod 62)) [0..<20]"

subsection \<open>What the store accepts\<close>

text \<open>
  A field name must not be empty and must not begin and end with two underscores. The keys
  of an added document are field names. The keys of an update are field paths: the store
  splits a key at its dots (as \<open>split('.')\<close> does), refuses a key that holds one of the
  characters \<open>~ * / [ ]\<close>, and takes every segment for a field name.
\<close>

primrec splitDots :: "string \<Rightarrow> string list" where
  "splitDots [] = [[]]"
| "splitDots (c # cs) =
     (if c = CHR ''.'' then [] # splitDots cs
      else (case splitDots cs of [] \<Rightarrow> [[c]] | w # ws \<Rightarrow> (c # w) # ws))"

definition reservedName :: "string \<Rightarrow> bool" where
  "reservedName s = (4 \<le> length s \<and> take 2 s = ''__'' \<and> drop (length s - 2) s = ''__'')"

definition invalidName :: "string \<Rightarrow> bool" where
  "invalidName s = (s = [] \<or> reservedName s)"

definition FIELD_PATH_RESERVED :: string where
  "FIELD_PATH_RESERVED = ''~*/[]''"

definition invalidPath :: "string \<Rightarrow> bool" where
  "invalidPath k =
     (list_ex (\<lambda>c. c \<in> set FIELD_PATH_RESERVED) k \<or> list_ex invalidName (splitDots k))"

text \<open>A value is refused when it is \<open>undefined\<close>, or a nested object with a field name or a
  value that is refused.\<close>

fun invalidValue :: "fvalue \<Rightarrow> bool" where
  "invalidValue VUndefined = True"
| "invalidValue (VMap m) = list_ex (\<lambda>kv. invalidName (fst kv) \<or> invalidValue (snd kv)) m"
| "invalidValue v = False"

text \<open>The data of an add, and the data of an update, that the store refuses.\<close>

definition refusedData :: "obj \<Rightarrow> bool" where
  "refusedData data = list_ex (\<lambda>kv. invalidName (fst kv) \<or> invalidValue (snd kv)) data"

definition refusedUpdate :: "obj \<Rightarrow> bool" where
  "refusedUpdate data = list_ex (\<lambda>kv. invalidPath (fst kv) \<or> invalidValue (snd kv)) data"

text \<open>The server replaces the sentinel by its own time when it commits a write.\<close>

fun resolveValue :: "int \<Rightarrow> fvalue \<Rightarrow> fvalue" where
  "resolveValue t VServerTimestamp = VTimestamp t"
| "resolveValue t (VMap m) = VMap (map (\<lambda>kv. (fst kv, resolveValue t (snd kv))) m)"
| "resolveValue t v = v"

definition resolveData :: "int \<Rightarrow> obj \<Rightarrow> obj" where
  "resolveData t data = map (\<lambda>kv. (fst kv, resolveValue t (snd kv))) data"

definition getDoc :: "firestore \<Rightarrow> string \<Rightarrow> string \<Rightarrow> obj option" where
  "getDoc db coll docId = map_of (docs db coll) docId"

definition addDoc ::
  "client \<Rightarrow> firestore \<Rightarrow> string \<Rightarrow> obj \<Rightarrow> firestore \<times> (error + string)" where
  "addDoc cl db coll data =
     (let newId = autoId (random cl) in
      if refusedData data then (db, Inl (FirebaseError InvalidArgument))
      else if getDoc db coll newId \<noteq> None then (db, Inl (FirebaseError AlreadyExists))
      else
        (db\<lparr>docs := (docs db)(coll := docs db coll @ [(newId, resolveData (serverTime db) data)]),
            writeLog := writeLog db @ [AddDoc coll newId data]\<rparr>,
         Inr newId))"

text \<open>
  An update sets, for every key of the data, the field that the key's path leads to. A path
  of one segment sets that field of the document. A longer path goes into the nested object
  that the first segment names, and puts a new object there when the field is missing or
  holds anything else. An object has one value for a key (the first pair of the list), and
  the keys are applied in the order of the object.
\<close>

fun setPath :: "string list \<Rightarrow> fvalue \<Rightarrow> obj \<Rightarrow> obj" where
  "setPath [] v d = d"
| "setPath [k] v d = AList.update k v d"
| "setPath (k # ks) v d =
     AList.update k
       (VMap (setPath ks v (case map_of d k of Some (VMap m) \<Rightarrow> m | _ \<Rightarrow> []))) d"

definition applyChanges :: "obj \<Rightarrow> obj \<Rightarrow> obj" where
  "applyChanges data doc =
     fold (\<lambda>kv. setPath (splitDots (fst kv)) (snd kv)) (AList.clearjunk data) doc"

definition mergeInto :: "string \<Rightarrow> obj \<Rightarrow> (string \<times> obj) list \<Rightarrow> (string \<times> obj) list" where
  "mergeInto docId data ds =
     map (\<lambda>de. if fst de = docId then (fst de, applyChanges data (snd de)) else de) ds"

definition updateDoc ::
  "firestore \<Rightarrow> string \<Rightarrow> string \<Rightarrow> obj \<Rightarrow> firestore \<times> (error + unit)" where
  "updateDoc db coll docId data =
     (if refusedUpdate data then (db, Inl (FirebaseError InvalidArgument))
      else if getDoc db coll docId = None then (db, Inl (FirebaseError NotFound))
      else
        (db\<lparr>docs := (docs db)(coll := mergeInto docId (resolveData (serverTime db) data) (docs db coll)),
            writeLog := writeLog db @ [UpdateDoc coll docId data]\<rparr>,
         Inr ()))"

text \<open>A write batch: all of its updates are applied, or none is.\<close>

definition applyUpdate ::
  "int \<Rightarrow> string \<times> string \<times> obj \<Rightarrow> (string \<Rightarrow> (string \<times> obj) list) \<Rightarrow> string \<Rightarrow> (string \<times> obj) list"
  where
  "applyUpdate t w ds =
     ds(fst w := mergeInto (fst (snd w)) (resolveData t (snd (snd w))) (ds (fst w)))"

definition commitBatch ::
  "firestore \<Rightarrow> (string \<times> string \<times> obj) list \<Rightarrow> firestore \<times> (error + unit)" where
  "commitBatch db ws =
     (if list_ex (\<lambda>w. refusedUpdate (snd (snd w))) ws then (db, Inl (FirebaseError InvalidArgument))
      else if list_ex (\<lambda>w. getDoc db (fst w) (fst (snd w)) = None) ws
        then (db, Inl (FirebaseError NotFound))
      else
        (db\<lparr>docs := fold (applyUpdate (serverTime db)) ws (docs db),
            writeLog := writeLog db @ [Batch ws]\<rparr>,
         Inr ()))"

subsection \<open>Queries\<close>

text \<open>\<open>where(f, '==', v)\<close> keeps the documents whose field \<open>f\<close> holds \<open>v\<close>.\<close>

definition whereEq :: "string \<Rightarrow> fvalue \<Rightarrow> (string \<times> obj) list \<Rightarrow> (string \<times> obj) list" where
  "whereEq f v ds = filter (\<lambda>de. map_of (snd de) f = Some v) ds"

text \<open>
  \<open>orderBy(f, 'asc')\<close> drops the documents that have no field \<open>f\<close> and sorts the others by
  the value of \<open>f\<close>. The store orders values of different kinds by kind: numbers come before
  timestamps. The services order by a time field only, so the key orders numbers and
  timestamps by their value and leaves values of the other kinds in the order of enumeration.
\<close>

fun order_key :: "fvalue \<Rightarrow> nat \<times> int" where
  "order_key VNull = (0, 0)"
| "order_key (VBool b) = (1, if b then 1 else 0)"
| "order_key (VNum n) = (2, n)"
| "order_key (VTimestamp t) = (3, t)"
| "order_key (VStr s) = (4, 0)"
| "order_key (VArr xs) = (5, 0)"
| "order_key (VMap m) = (6, 0)"
| "order_key VUndefined = (7, 0)"
| "order_key VServerTimestamp = (7, 0)"

definition orderByAsc :: "string \<Rightarrow> (string \<times> obj) list \<Rightarrow> (string \<times> obj) list" where
  "orderByAsc f ds =
     sort_key (\<lambda>de. order_key (field (snd de) f)) (filter (\<lambda>de. map_of (snd de) f \<noteq> None) ds)"

section \<open>The listing service\<close>

definition LISTINGS_COLLECTION :: string where
  "LISTINGS_COLLECTION = ''listings''"

definition toMillis :: "int \<Rightarrow> int" where
  "toMillis t = t"

definition fromFirestore :: "string \<times> obj \<Rightarrow> obj" where
  "fromFirestore snapshot =
     (let data = snd snapshot in
      AList.update ''createdAt''
        (case field data ''createdAt'' of VTimestamp t \<Rightarrow> VNum (toMillis t) | v \<Rightarrow> v)
        (AList.update ''id'' (VStr (fst snapshot)) data))"

definition getListingById :: "firestore \<Rightarrow> string \<Rightarrow> obj option" where
  "getListingById db listingId =
     (case getDoc db LISTINGS_COLLECTION listingId of
        Some data \<Rightarrow> Some (fromFirestore (listingId, data))
      | None \<Rightarrow> None)"

definition createListing ::
  "client \<Rightarrow> firestore \<Rightarrow> obj \<Rightarrow> firestore \<times> (error + obj)" where
  "createListing cl db productData =
     (if falsy (field productData ''userId'')
      then (db, Inl (Error ''User ID is required to create a listing.''))
      else
        let dataToSave =
              AList.update ''createdAt'' VServerTimestamp
                (AList.update ''status'' (status_value PENDING) productData)
        in case addDoc cl db LISTINGS_COLLECTION dataToSave of
             (db', Inl e) \<Rightarrow> (db', Inl e)
           | (db', Inr docId) \<Rightarrow>
               (db', Inr (AList.update ''createdAt'' (VNum (dateNow cl))
                           (AList.update ''status'' (status_value PENDING)
                             (AList.update ''id'' (VStr docId) productData)))))"

text \<open>
  \<open>updateListing\<close> awaits the write and then awaits a read of the same document. Other
  clients write to the store too; \<open>others\<close> is what they did to it between the two calls
  (the identity when nobody else wrote).
\<close>

definition updateListing ::
  "(firestore \<Rightarrow> firestore) \<Rightarrow> firestore \<Rightarrow> string \<Rightarrow> obj \<Rightarrow> firestore \<times> (error + obj option)"
  where
  "updateListing others db listingId updates =
     (let safeUpdates = AList.delete ''userId'' updates in
      case updateDoc db LISTINGS_COLLECTION listingId safeUpdates of
        (db1, Inl e) \<Rightarrow> (db1, Inl e)
      | (db1, Inr u) \<Rightarrow>
          (let db2 = others db1 in
           (db2, Inr (case getDoc db2 LISTINGS_COLLECTION listingId of
                        Some data \<Rightarrow> Some (fromFirestore (listingId, data))
                      | None \<Rightarrow> None))))"

definition approveListing ::
  "(firestore \<Rightarrow> firestore) \<Rightarrow> firestore \<Rightarrow> string \<Rightarrow> firestore \<times> (error + obj option)" where
  "approveListing others db listingId =
     updateListing others db listingId
       [(''status'', status_value ACTIVE), (''rejectionReason'', VUndefined)]"

definition rejectListing ::
  "(firestore \<Rightarrow> firestore) \<Rightarrow> firestore \<Rightarrow> string \<Rightarrow> string \<Rightarrow> firestore \<times> (error + obj option)"
  where
  "rejectListing others db listingId reason =
     updateListing others db listingId
       [(''status'', status_value REJECTED), (''rejectionReason'', VStr reason)]"

section \<open>The chat service\<close>

definition MESSAGES_COLLECTION :: string where
  "MESSAGES_COLLECTION = ''messages''"

definition messageFromFirestore :: "string \<times> obj \<Rightarrow> obj" where
  "messageFromFirestore snapshot =
     (let data = snd snapshot in
      AList.update ''timestamp''
        (case field data ''timestamp'' of VTimestamp t \<Rightarrow> VNum (toMillis t) | v \<Rightarrow> v)
        (AList.update ''id'' (VStr (fst snapshot)) data))"

definition getMessagesForAd :: "firestore \<Rightarrow> string \<Rightarrow> string \<Rightarrow> obj list" where
  "getMessagesForAd db adId currentUserId =
     (if currentUserId = [] then []
      else
        filter (\<lambda>msg. field msg ''senderId'' = VStr currentUserId
                     \<or> field msg ''receiverId'' = VStr currentUserId)
          (map messageFromFirestore
            (orderByAsc ''timestamp''
              (whereEq ''adId'' (VStr adId) (docs db MESSAGES_COLLECTION)))))"

definition sendMessage ::
  "client \<Rightarrow> firestore \<Rightarrow> string \<Rightarrow> string \<Rightarrow> string \<Rightarrow> string \<Rightarrow> firestore \<times> (error + obj)"
  where
  "sendMessage cl db adId senderId receiverId text =
     (if senderId = [] \<or> receiverId = []
      then (db, Inl (Error ''Sender and Receiver ID are required to send a message.''))
      else
        let dataToSave =
              [(''adId'', VStr adId), (''senderId'', VStr senderId),
               (''receiverId'', VStr receiverId), (''text'', VStr text),
               (''timestamp'', VServerTimestamp), (''read'', VBool False)]
        in case addDoc cl db MESSAGES_COLLECTION dataToSave of
             (db', Inl e) \<Rightarrow> (db', Inl e)
           | (db', Inr docId) \<Rightarrow>
               (db', Inr (AList.update ''read'' (VBool False)
                           (AList.update ''timestamp'' (VNum (dateNow cl))
                             (AList.update ''id'' (VStr docId) dataToSave)))))"

definition unreadQuery :: "firestore \<Rightarrow> string \<Rightarrow> string \<Rightarrow> (string \<times> obj) list" where
  "unreadQuery db adId readerId =
     whereEq ''read'' (VBool False)
       (whereEq ''receiverId'' (VStr readerId)
         (whereEq ''adId'' (VStr adId) (docs db MESSAGES_COLLECTION)))"

definition markMessagesAsRead ::
  "firestore \<Rightarrow> string \<Rightarrow> string \<Rightarrow> firestore \<times> (error + unit)" where
  "markMessagesAsRead db adId readerId =
     (if readerId = [] then (db, Inr ())
      else
        let snapshot = unreadQuery db adId readerId in
        if snapshot = [] then (db, Inr ())
        else
          commitBatch db
            (map (\<lambda>docSnapshot. (MESSAGES_COLLECTION, fst docSnapshot, [(''read'', VBool True)]))
               snapshot))"

definition getUnreadMessagesCountForUser :: "firestore \<Rightarrow> string \<Rightarrow> nat" where
  "getUnreadMessagesCountForUser db userId =
     (if userId = [] then 0
      else length (whereEq ''read'' (VBool False)
                    (whereEq ''receiverId'' (VStr userId) (docs db MESSAGES_COLLECTION))))"

text \<open>\<open>Set.add\<close> keeps the first insertion of a value; \<open>Array.from\<close> lists the set in
  insertion order.\<close>

definition setAdd :: "fvalue list \<Rightarrow> fvalue \<Rightarrow> fvalue list" where
  "setAdd s x = (if x \<in> set s then s else s @ [x])"

definition getChatsForUser :: "firestore \<Rightarrow> string \<Rightarrow> fvalue list" where
  "getChatsForUser db userId =
     (if userId = [] then []
      else
        let sentSnapshot = whereEq ''senderId'' (VStr userId) (docs db MESSAGES_COLLECTION);
            receivedSnapshot = whereEq ''receiverId'' (VStr userId) (docs db MESSAGES_COLLECTION);
            adIds = foldl setAdd [] (map (\<lambda>d. field (snd d) ''adId'') sentSnapshot)
        in foldl setAdd adIds (map (\<lambda>d. field (snd d) ''adId'') receivedSnapshot))"

section \<open>The edit page\<close>

text \<open>
  What \<open>handleSubmit\<close> leaves behind: the submitting flag, whether the failure message is
  shown, and the route it navigated to. The form component is not part of the sources; its
  output is the argument \<open>productData\<close>.
\<close>

record page =
  isSubmitting :: bool
  failed :: bool
  navigatedTo :: "string option"

definition handleSubmit ::
  "bool \<Rightarrow> obj option \<Rightarrow> (firestore \<Rightarrow> firestore) \<Rightarrow> firestore \<Rightarrow> obj \<Rightarrow> firestore \<times> page"
  where
  "handleSubmit isAdminEdit initialProduct others db productData =
     (case initialProduct of
        None \<Rightarrow> (db, \<lparr>isSubmitting = True, failed = False, navigatedTo = None\<rparr>)
      | Some initial \<Rightarrow>
          (let finalStatus =
                 (if \<not> isAdminEdit then status_value PENDING else field productData ''status'');
               updatedProductData = AList.update ''status'' finalStatus productData
           in case field initial ''id'' of
                VStr listingId \<Rightarrow>
                  (case updateListing others db listingId updatedProductData of
                     (db', Inl e) \<Rightarrow>
                       (db', \<lparr>isSubmitting = False, failed = True, navigatedTo = None\<rparr>)
                   | (db', Inr r) \<Rightarrow>
                       (db', \<lparr>isSubmitting = False, failed = False,
                              navigatedTo = Some (if isAdminEdit then ''/admin/manage-listings''
                                                  else ''/my-listings'')\<rparr>))
              | _ \<Rightarrow> (db, \<lparr>isSubmitting = False, failed = True, navigatedTo = None\<rparr>)))"

section \<open>Reading the store, and a store to run the services on\<close>

text \<open>The value a stored document holds in a field, if the document and the field exist.\<close>

definition storedField :: "firestore \<Rightarrow> string \<Rightarrow> string \<Rightarrow> string \<Rightarrow> fvalue option" where
  "storedField db coll docId f =
     (case getDoc db coll docId of None \<Rightarrow> None | Some data \<Rightarrow> map_of data f)"

text \<open>No other client writes between two calls.\<close>

definition nobody :: "firestore \<Rightarrow> firestore" where
  "nobody db = db"


text \<open>
  The store of the scenarios: user \<open>u1\<close> owns listing \<open>L1\<close>, which the admin rejected for a
  blurry photo; \<open>u1\<close> and \<open>u2\<close> have exchanged two messages about it, a third message about
  \<open>L2\<close> has been read.
\<close>

definition listingL1 :: obj where
  "listingL1 =
     [(''title'', VStr ''bike''), (''price'', VNum 100), (''userId'', VStr ''u1''),
      (''status'', VStr ''rejected''), (''rejectionReason'', VStr ''blurry photo''),
      (''createdAt'', VTimestamp 1000)]"

definition message :: "string \<Rightarrow> string \<Rightarrow> string \<Rightarrow> string \<Rightarrow> int \<Rightarrow> bool \<Rightarrow> obj" where
  "message adId senderId receiverId txt t r =
     [(''adId'', VStr adId), (''senderId'', VStr senderId), (''receiverId'', VStr receiverId),
      (''text'', VStr txt), (''timestamp'', VTimestamp t), (''read'', VBool r)]"

definition scenarioStore :: firestore where
  "scenarioStore =
     \<lparr>docs = (\<lambda>c. [])
        (''listings'' := [(''L1'', listingL1)],
         ''messages'' :=
           [(''m2'', message ''L1'' ''u2'' ''u1'' ''yes'' 3000 False),
            (''m1'', message ''L1'' ''u1'' ''u2'' ''still there?'' 2000 False),
            (''m3'', message ''L2'' ''u1'' ''u2'' ''hello'' 2500 True)]),
      serverTime = 5000,
      writeLog = []\<rparr>"

definition scenarioClient :: client where
  "scenarioClient = \<lparr>random = (\<lambda>i. i), dateNow = 4990\<rparr>"

section \<open>Field names and field paths\<close>

text \<open>A key without a dot names a field of the document itself.\<close>

definition plainKey :: "string \<Rightarrow> bool" where
  "plainKey k = (CHR ''.'' \<notin> set k)"



section \<open>What the specification says of the chat operations\<close>

text \<open>A message of listing \<open>adId\<close> that is addressed to \<open>readerId\<close> and not yet read.\<close>

definition unreadFor :: "string \<Rightarrow> string \<Rightarrow> obj \<Rightarrow> bool" where
  "unreadFor adId readerId data =
     (map_of data ''adId'' = Some (VStr adId)
      \<and> map_of data ''receiverId'' = Some (VStr readerId)
      \<and> map_of data ''read'' = Some (VBool False))"

text \<open>Mark-read, document by document: an unread message for the reader gets
  \<open>read = true\<close>, every other document stays as it is.\<close>

definition markedRead :: "string \<Rightarrow> string \<Rightarrow> string \<times> obj \<Rightarrow> string \<times> obj" where
  "markedRead adId readerId de =
     (if unreadFor adId readerId (snd de)
      then (fst de, AList.update ''read'' (VBool True) (snd de)) else de)"

text \<open>The user is the sender or the receiver of a message.\<close>

definition participant :: "string \<Rightarrow> obj \<Rightarrow> bool" where
  "participant userId data =
     (map_of data ''senderId'' = Some (VStr userId)
      \<or> map_of data ''receiverId'' = Some (VStr userId))"

text \<open>The message document carries a timestamp that the server assigned.\<close>

definition hasServerTime :: "obj \<Rightarrow> bool" where
  "hasServerTime data =
     (case map_of data ''timestamp'' of Some (VTimestamp t) \<Rightarrow> True | _ \<Rightarrow> False)"

text \<open>The time of a message as the service returns it, in milliseconds.\<close>

definition millisOf :: "obj \<Rightarrow> int" where
  "millisOf msg = (case field msg ''timestamp'' of VNum n \<Rightarrow> n | _ \<Rightarrow> 0)"

text \<open>
  What the chat service itself maintains of the message collection: identifiers are unique,
  every message carries a server timestamp, and no message has a blank sender or receiver.
\<close>

definition chatStoreOk :: "firestore \<Rightarrow> bool" where
  "chatStoreOk db =
     (distinct (map fst (docs db MESSAGES_COLLECTION))
      \<and> list_all (\<lambda>de. hasServerTime (snd de)) (docs db MESSAGES_COLLECTION)
      \<and> \<not> list_ex (\<lambda>de. participant [] (snd de)) (docs db MESSAGES_COLLECTION))"

section \<open>Lemmas about the store\<close>



lemma splitDots_plain: "plainKey k \<Longrightarrow> splitDots k = [k]"
  by (induction k) (auto simp: plainKey_def)



lemma clearjunk_key:
  assumes "kv \<in> set (AList.clearjunk data)"
  shows "fst kv \<in> set (map fst data)"
proof -
  from assms have "fst kv \<in> set (map fst (AList.clearjunk data))"
    by simp
  then show ?thesis
    by (simp only: AList.clearjunk_keys_set)
qed


lemma map_of_fold_setPath_plain:
  "distinct (map fst xs) \<Longrightarrow> \<forall>kv \<in> set xs. plainKey (fst kv) \<Longrightarrow>
   map_of (fold (\<lambda>kv. setPath (splitDots (fst kv)) (snd kv)) xs d) = map_of d ++ map_of xs"
proof (induction xs arbitrary: d)
  case Nil
  then show ?case by simp
next
  case (Cons x xs)
  have fresh: "map_of xs (fst x) = None"
    using Cons.prems(1) by (simp add: map_of_eq_None_iff)
  have "map_of (fold (\<lambda>kv. setPath (splitDots (fst kv)) (snd kv)) (x # xs) d)
      = map_of (AList.update (fst x) (snd x) d) ++ map_of xs"
    using Cons by (simp add: splitDots_plain)
  also have "\<dots> = map_of d ++ map_of (x # xs)"
    using fresh by (cases x) (auto simp: AList.update_conv' map_add_def fun_eq_iff split: option.splits)
  finally show ?case .
qed

text \<open>With plain keys an update is a merge of the data into the document.\<close>

lemma map_of_applyChanges_plain:
  assumes "list_all plainKey (map fst data)"
  shows "map_of (applyChanges data doc) = map_of doc ++ map_of data"
proof -
  have "\<forall>kv \<in> set (AList.clearjunk data). plainKey (fst kv)"
    using assms clearjunk_key [of _ data] by (auto simp: list_all_iff simp del: set_map)
  then have "map_of (applyChanges data doc) = map_of doc ++ map_of (AList.clearjunk data)"
    unfolding applyChanges_def
    by (intro map_of_fold_setPath_plain AList.distinct_clearjunk)
  then show ?thesis
    by (simp add: AList.map_of_clearjunk)
qed

lemma map_of_mergeInto:
  "map_of (mergeInto i data ds) j =
     (if j = i then map_option (applyChanges data) (map_of ds i) else map_of ds j)"
  by (induction ds) (auto simp: mergeInto_def)

lemma map_of_resolveData:
  "map_of (resolveData t data) k = map_option (resolveValue t) (map_of data k)"
  by (induction data) (auto simp: resolveData_def)

lemma keys_resolveData: "map fst (resolveData t data) = map fst data"
  by (simp add: resolveData_def comp_def)


lemma updateDoc_succeeds:
  assumes "\<not> refusedUpdate data" and "getDoc db coll i = Some d"
  shows "updateDoc db coll i data =
           (db\<lparr>docs := (docs db)(coll := mergeInto i (resolveData (serverTime db) data) (docs db coll)),
               writeLog := writeLog db @ [UpdateDoc coll i data]\<rparr>, Inr ())"
  using assms by (simp add: updateDoc_def)

lemma getDoc_updateDoc:
  assumes "\<not> refusedUpdate data" and "getDoc db coll i = Some d"
  shows "getDoc (fst (updateDoc db coll i data)) coll i
           = Some (applyChanges (resolveData (serverTime db) data) d)"
  using assms by (simp add: updateDoc_succeeds getDoc_def map_of_mergeInto)


lemma length_autoId: "length (autoId rnd) = 20"
  by (simp add: autoId_def)

lemma autoId_nonempty: "autoId rnd \<noteq> []"
  using length_autoId [of rnd] by auto

lemma addDoc_cases:
  "addDoc cl db coll data =
     (if refusedData data then (db, Inl (FirebaseError InvalidArgument))
      else if getDoc db coll (autoId (random cl)) \<noteq> None
        then (db, Inl (FirebaseError AlreadyExists))
      else
        (db\<lparr>docs := (docs db)(coll := docs db coll
                 @ [(autoId (random cl), resolveData (serverTime db) data)]),
            writeLog := writeLog db @ [AddDoc coll (autoId (random cl)) data]\<rparr>,
         Inr (autoId (random cl))))"
  by (simp add: addDoc_def Let_def)

lemma getDoc_addDoc:
  assumes "\<not> refusedData data" and "getDoc db coll (autoId (random cl)) = None"
  shows "getDoc (fst (addDoc cl db coll data)) coll (autoId (random cl))
           = Some (resolveData (serverTime db) data)"
  using assms by (simp add: addDoc_cases getDoc_def map_add_def)

lemma getDoc_member:
  assumes "de \<in> set (docs db coll)"
  shows "getDoc db coll (fst de) \<noteq> None"
proof -
  from assms have "fst de \<in> fst ` set (docs db coll)"
    by (rule imageI)
  then show ?thesis
    by (simp add: getDoc_def map_of_eq_None_iff)
qed

lemma mergeInto_read:
  "mergeInto i (resolveData t [(''read'', VBool True)]) ds
     = map (\<lambda>de. if fst de = i then (fst de, AList.update ''read'' (VBool True) (snd de)) else de) ds"
  by (simp add: mergeInto_def resolveData_def applyChanges_def)

lemma fold_applyUpdate_read:
  "fold (applyUpdate t) (map (\<lambda>de. (c, fst de, [(''read'', VBool True)])) xs) dsf
     = dsf(c := map (\<lambda>de. if fst de \<in> fst ` set xs
                          then (fst de, AList.update ''read'' (VBool True) (snd de)) else de)
                  (dsf c))"
proof (induction xs arbitrary: dsf)
  case Nil
  then show ?case by (simp add: map_idI)
next
  case (Cons x xs)
  let ?one = "\<lambda>de. if fst de = fst x
                    then (fst de, AList.update ''read'' (VBool True) (snd de)) else de"
  have step: "applyUpdate t (c, fst x, [(''read'', VBool True)]) dsf = dsf(c := map ?one (dsf c))"
    by (simp add: applyUpdate_def mergeInto_read)
  have "fold (applyUpdate t) (map (\<lambda>de. (c, fst de, [(''read'', VBool True)])) (x # xs)) dsf
      = fold (applyUpdate t) (map (\<lambda>de. (c, fst de, [(''read'', VBool True)])) xs)
          (dsf(c := map ?one (dsf c)))"
    by (simp add: step)
  also have "\<dots> = dsf(c := map (\<lambda>de. if fst de \<in> fst ` set xs
                          then (fst de, AList.update ''read'' (VBool True) (snd de)) else de)
                  (map ?one (dsf c)))"
    by (simp add: Cons.IH fun_eq_iff)
  also have "\<dots> = dsf(c := map (\<lambda>de. if fst de \<in> fst ` set (x # xs)
                          then (fst de, AList.update ''read'' (VBool True) (snd de)) else de)
                  (dsf c))"
    by auto
  finally show ?case .
qed

lemma commitBatch_read:
  assumes "set xs \<subseteq> set (docs db c)"
  shows "commitBatch db (map (\<lambda>de. (c, fst de, [(''read'', VBool True)])) xs)
     = (db\<lparr>docs := (docs db)(c := map (\<lambda>de. if fst de \<in> fst ` set xs
                          then (fst de, AList.update ''read'' (VBool True) (snd de)) else de)
                  (docs db c)),
           writeLog := writeLog db @ [Batch (map (\<lambda>de. (c, fst de, [(''read'', VBool True)])) xs)]\<rparr>,
        Inr ())"
proof -
  have "\<not> list_ex (\<lambda>w. refusedUpdate (snd (snd w)))
            (map (\<lambda>de. (c, fst de, [(''read'', VBool True)])) xs)"
    by (simp add: list_ex_iff refusedUpdate_def invalidPath_def invalidName_def reservedName_def
          FIELD_PATH_RESERVED_def)
  moreover have "\<not> list_ex (\<lambda>w. getDoc db (fst w) (fst (snd w)) = None)
            (map (\<lambda>de. (c, fst de, [(''read'', VBool True)])) xs)"
    using assms getDoc_member [of _ db c] by (auto simp: list_ex_iff)
  ultimately show ?thesis
    by (simp add: commitBatch_def fold_applyUpdate_read)
qed

lemma key_in_filter:
  assumes "distinct (map fst ds)" and "de \<in> set ds"
  shows "fst de \<in> fst ` set (filter P ds) \<longleftrightarrow> P de"
proof
  assume "fst de \<in> fst ` set (filter P ds)"
  then obtain de' where de': "de' \<in> set ds" "P de'" "fst de' = fst de"
    by auto
  have "(fst de, snd de') \<in> set ds" "(fst de, snd de) \<in> set ds"
    using de' assms(2) by (metis prod.collapse)+
  then have "snd de' = snd de"
    using assms(1) by (rule_tac eq_key_imp_eq_value)
  then have "de' = de"
    using de'(3) by (simp add: prod_eq_iff)
  then show "P de" using de'(2) by simp
next
  assume "P de"
  then show "fst de \<in> fst ` set (filter P ds)"
    using assms(2) by force
qed

lemma scenario_listing_free:
  "getDoc scenarioStore LISTINGS_COLLECTION (autoId rnd) = None"
  using length_autoId [of rnd]
  by (auto simp: getDoc_def scenarioStore_def LISTINGS_COLLECTION_def)

lemma scenario_message_free:
  "getDoc scenarioStore MESSAGES_COLLECTION (autoId rnd) = None"
  using length_autoId [of rnd]
  by (auto simp: getDoc_def scenarioStore_def MESSAGES_COLLECTION_def)

lemma scenario_timed:
  "list_all (\<lambda>de. hasServerTime (snd de)) (docs scenarioStore MESSAGES_COLLECTION)"
  by (simp add: scenarioStore_def MESSAGES_COLLECTION_def message_def hasServerTime_def)

lemma scenario_participants:
  "\<not> list_ex (\<lambda>de. participant [] (snd de)) (docs scenarioStore MESSAGES_COLLECTION)"
  by (simp add: scenarioStore_def MESSAGES_COLLECTION_def message_def participant_def)

section \<open>Creating a listing\<close>

text \<open>
  C3. When the owner id of the input is missing, empty or otherwise false to JavaScript,
  \<open>createListing\<close> fails with the required-field error and leaves the store as it was.
  With an owner id, the call fails only if the store refuses the add (a field that is
  \<open>undefined\<close> or has a name the store does not allow, or the new identifier is taken),
  again without a write. When it succeeds, the returned
  record has the new, non-empty identifier and status \<open>pending\<close>, and the stored listing has
  status \<open>pending\<close> and the server's time as creation time.
\<close>

theorem createListing_requires_owner:
  "(falsy (field productData ''userId'') \<longrightarrow>
      createListing cl db productData
        = (db, Inl (Error ''User ID is required to create a listing.'')))
   \<and> (\<not> falsy (field productData ''userId'') \<longrightarrow>
        (isl (snd (createListing cl db productData)) \<longleftrightarrow>
           refusedData (AList.update ''createdAt'' VServerTimestamp
                          (AList.update ''status'' (VStr ''pending'') productData))
           \<or> getDoc db LISTINGS_COLLECTION (autoId (random cl)) \<noteq> None)
        \<and> (isl (snd (createListing cl db productData)) \<longrightarrow>
             fst (createListing cl db productData) = db)
        \<and> (\<not> isl (snd (createListing cl db productData)) \<longrightarrow>
             snd (createListing cl db productData)
               = Inr (AList.update ''createdAt'' (VNum (dateNow cl))
                       (AList.update ''status'' (VStr ''pending'')
                         (AList.update ''id'' (VStr (autoId (random cl))) productData)))
             \<and> field (projr (snd (createListing cl db productData))) ''id''
                 = VStr (autoId (random cl))
             \<and> autoId (random cl) \<noteq> []
             \<and> field (projr (snd (createListing cl db productData))) ''status'' = VStr ''pending''
             \<and> storedField (fst (createListing cl db productData)) LISTINGS_COLLECTION
                 (autoId (random cl)) ''status'' = Some (VStr ''pending'')
             \<and> storedField (fst (createListing cl db productData)) LISTINGS_COLLECTION
                 (autoId (random cl)) ''createdAt'' = Some (VTimestamp (serverTime db))))"
proof (intro conjI impI)
  assume "falsy (field productData ''userId'')"
  then show "createListing cl db productData
        = (db, Inl (Error ''User ID is required to create a listing.''))"
    by (simp add: createListing_def)
next
  let ?save = "AList.update ''createdAt'' VServerTimestamp
                 (AList.update ''status'' (VStr ''pending'') productData)"
  let ?new = "autoId (random cl)"
  assume owner: "\<not> falsy (field productData ''userId'')"
  have unfold: "createListing cl db productData =
      (case addDoc cl db LISTINGS_COLLECTION ?save of
         (db', Inl e) \<Rightarrow> (db', Inl e)
       | (db', Inr docId) \<Rightarrow>
           (db', Inr (AList.update ''createdAt'' (VNum (dateNow cl))
                       (AList.update ''status'' (VStr ''pending'')
                         (AList.update ''id'' (VStr docId) productData)))))"
    using owner by (simp add: createListing_def)
  show "isl (snd (createListing cl db productData)) \<longleftrightarrow>
          refusedData ?save \<or> getDoc db LISTINGS_COLLECTION ?new \<noteq> None"
    by (simp add: unfold addDoc_cases)
  show "fst (createListing cl db productData) = db"
    if "isl (snd (createListing cl db productData))"
    using that by (simp add: unfold addDoc_cases split: if_splits)
  assume ok: "\<not> isl (snd (createListing cl db productData))"
  then have nu: "\<not> refusedData ?save" and fresh: "getDoc db LISTINGS_COLLECTION ?new = None"
    by (simp_all add: unfold addDoc_cases split: if_splits)
  show res: "snd (createListing cl db productData)
        = Inr (AList.update ''createdAt'' (VNum (dateNow cl))
                (AList.update ''status'' (VStr ''pending'')
                  (AList.update ''id'' (VStr ?new) productData)))"
    using nu fresh by (simp add: unfold addDoc_cases)
  show "field (projr (snd (createListing cl db productData))) ''id'' = VStr ?new"
    by (simp add: res field_def AList.update_conv')
  show "?new \<noteq> []"
    by (rule autoId_nonempty)
  show "field (projr (snd (createListing cl db productData))) ''status'' = VStr ''pending''"
    by (simp add: res field_def AList.update_conv')
  have stored: "getDoc (fst (createListing cl db productData)) LISTINGS_COLLECTION ?new
        = Some (resolveData (serverTime db) ?save)"
    using getDoc_addDoc [OF nu fresh] nu fresh by (simp add: unfold addDoc_cases)
  show "storedField (fst (createListing cl db productData)) LISTINGS_COLLECTION ?new ''status''
        = Some (VStr ''pending'')"
    by (simp add: storedField_def stored map_of_resolveData AList.update_conv')
  show "storedField (fst (createListing cl db productData)) LISTINGS_COLLECTION ?new ''createdAt''
        = Some (VTimestamp (serverTime db))"
    by (simp add: storedField_def stored map_of_resolveData AList.update_conv')
qed

text \<open>An input without owner id, one with an empty owner id, and one of user \<open>u3\<close>.\<close>

theorem createListing_requires_owner_witness:
  "createListing scenarioClient scenarioStore [(''title'', VStr ''lamp'')]
     = (scenarioStore, Inl (Error ''User ID is required to create a listing.''))
   \<and> createListing scenarioClient scenarioStore [(''title'', VStr ''lamp''), (''userId'', VStr [])]
     = (scenarioStore, Inl (Error ''User ID is required to create a listing.''))
   \<and> snd (createListing scenarioClient scenarioStore
            [(''title'', VStr ''lamp''), (''userId'', VStr ''u3'')])
     = Inr [(''title'', VStr ''lamp''), (''userId'', VStr ''u3''),
            (''id'', VStr (autoId (random scenarioClient))), (''status'', VStr ''pending''),
            (''createdAt'', VNum 4990)]
   \<and> storedField (fst (createListing scenarioClient scenarioStore
            [(''title'', VStr ''lamp''), (''userId'', VStr ''u3'')]))
        LISTINGS_COLLECTION (autoId (random scenarioClient)) ''status'' = Some (VStr ''pending'')"
  using createListing_requires_owner [of "[(''title'', VStr ''lamp'')]" scenarioClient scenarioStore]
    createListing_requires_owner
      [of "[(''title'', VStr ''lamp''), (''userId'', VStr [])]" scenarioClient scenarioStore]
    createListing_requires_owner
      [of "[(''title'', VStr ''lamp''), (''userId'', VStr ''u3'')]" scenarioClient scenarioStore]
  by (simp add: field_def refusedData_def invalidName_def reservedName_def scenario_listing_free
        scenarioClient_def)

section \<open>Updating a listing\<close>

lemma updateListing_cases:
  "updateListing others db i u =
     (if refusedUpdate (AList.delete ''userId'' u) then (db, Inl (FirebaseError InvalidArgument))
      else if getDoc db LISTINGS_COLLECTION i = None then (db, Inl (FirebaseError NotFound))
      else
        (let db2 = others (fst (updateDoc db LISTINGS_COLLECTION i (AList.delete ''userId'' u)))
         in (db2, Inr (case getDoc db2 LISTINGS_COLLECTION i of
                         Some data \<Rightarrow> Some (fromFirestore (i, data)) | None \<Rightarrow> None))))"
  by (simp add: updateListing_def updateDoc_def Let_def)

lemma updateListing_written:
  assumes "\<not> refusedUpdate (AList.delete ''userId'' u)"
    and "getDoc db LISTINGS_COLLECTION i = Some d"
  shows "updateListing nobody db i u =
           (fst (updateDoc db LISTINGS_COLLECTION i (AList.delete ''userId'' u)),
            Inr (Some (fromFirestore
              (i, applyChanges (resolveData (serverTime db) (AList.delete ''userId'' u)) d))))"
  using assms getDoc_updateDoc [OF assms]
  by (simp add: updateListing_cases nobody_def Let_def)

lemma field_fromFirestore:
  "f \<noteq> ''id'' \<Longrightarrow> f \<noteq> ''createdAt'' \<Longrightarrow> field (fromFirestore (i, d)) f = field d f"
  by (simp add: fromFirestore_def field_def AList.update_conv')

lemma keys_delete_plain:
  "list_all plainKey (map fst u) \<Longrightarrow> list_all plainKey (map fst (AList.delete k u))"
  by (auto simp: list_all_iff AList.delete_keys)

lemma storedField_updateListing:
  assumes "\<not> refusedUpdate (AList.delete ''userId'' u)"
    and "getDoc db LISTINGS_COLLECTION i = Some d"
    and "list_all plainKey (map fst u)"
    and "f \<noteq> ''userId''" and "map_of u f = Some v" and "resolveValue (serverTime db) v = v"
  shows "storedField (fst (updateListing nobody db i u)) LISTINGS_COLLECTION i f = Some v"
proof -
  let ?data = "resolveData (serverTime db) (AList.delete ''userId'' u)"
  have "list_all plainKey (map fst ?data)"
    using keys_delete_plain [OF assms(3)] by (simp add: keys_resolveData)
  then have "map_of (applyChanges ?data d) = map_of d ++ map_of ?data"
    by (rule map_of_applyChanges_plain)
  moreover have "map_of ?data f = Some v"
    using assms(4-6) by (simp add: map_of_resolveData)
  ultimately show ?thesis
    using getDoc_updateDoc [OF assms(1,2)]
    by (simp add: updateListing_written [OF assms(1,2)] storedField_def)
qed





section \<open>Rejecting and approving\<close>

text \<open>
  C1, as amended. \<open>rejectListing\<close> does not check the reason. For a listing that exists and
  any reason, empty or not, the call succeeds: the stored listing gets status \<open>rejected\<close> and
  exactly that reason, every other field stays, and the returned record is the stored one.
  For a listing id that is not in the store the update fails with the store's not-found
  error and nothing is written.
\<close>

theorem rejectListing_stores_reason:
  "(getDoc db LISTINGS_COLLECTION i = None \<longrightarrow>
      rejectListing others db i reason = (db, Inl (FirebaseError NotFound)))
   \<and> (\<forall>d. getDoc db LISTINGS_COLLECTION i = Some d \<longrightarrow>
        (\<exists>d'. getDoc (fst (rejectListing nobody db i reason)) LISTINGS_COLLECTION i = Some d'
           \<and> snd (rejectListing nobody db i reason) = Inr (Some (fromFirestore (i, d')))
           \<and> map_of d' ''status'' = Some (VStr ''rejected'')
           \<and> map_of d' ''rejectionReason'' = Some (VStr reason)
           \<and> (\<forall>f. f \<noteq> ''status'' \<and> f \<noteq> ''rejectionReason'' \<longrightarrow> map_of d' f = map_of d f)
           \<and> field (fromFirestore (i, d')) ''status'' = VStr ''rejected''
           \<and> field (fromFirestore (i, d')) ''rejectionReason'' = VStr reason))"
proof (intro conjI allI impI)
  have accepted: "\<not> refusedUpdate (AList.delete ''userId''
      [(''status'', status_value REJECTED), (''rejectionReason'', VStr reason)])"
    by (simp add: refusedUpdate_def invalidPath_def invalidName_def reservedName_def
          FIELD_PATH_RESERVED_def)
  {
    assume "getDoc db LISTINGS_COLLECTION i = None"
    then show "rejectListing others db i reason = (db, Inl (FirebaseError NotFound))"
      using accepted by (simp add: rejectListing_def updateListing_cases)
  }
  fix d
  assume d: "getDoc db LISTINGS_COLLECTION i = Some d"
  let ?u = "[(''status'', status_value REJECTED), (''rejectionReason'', VStr reason)]"
  let ?d' = "applyChanges (resolveData (serverTime db) (AList.delete ''userId'' ?u)) d"
  have res: "rejectListing nobody db i reason =
      (fst (updateDoc db LISTINGS_COLLECTION i (AList.delete ''userId'' ?u)),
       Inr (Some (fromFirestore (i, ?d'))))"
    unfolding rejectListing_def by (rule updateListing_written [OF accepted d])
  have stored: "getDoc (fst (rejectListing nobody db i reason)) LISTINGS_COLLECTION i = Some ?d'"
    using getDoc_updateDoc [OF accepted d] by (simp add: res)
  have "list_all plainKey (map fst (resolveData (serverTime db) (AList.delete ''userId'' ?u)))"
    by (simp add: resolveData_def plainKey_def)
  then have "map_of ?d' = map_of d
      ++ map_of (resolveData (serverTime db) (AList.delete ''userId'' ?u))"
    by (rule map_of_applyChanges_plain)
  then have m: "map_of ?d'
      = (map_of d)(''rejectionReason'' \<mapsto> VStr reason, ''status'' \<mapsto> VStr ''rejected'')"
    by (simp add: resolveData_def)
  show "\<exists>d'. getDoc (fst (rejectListing nobody db i reason)) LISTINGS_COLLECTION i = Some d'
           \<and> snd (rejectListing nobody db i reason) = Inr (Some (fromFirestore (i, d')))
           \<and> map_of d' ''status'' = Some (VStr ''rejected'')
           \<and> map_of d' ''rejectionReason'' = Some (VStr reason)
           \<and> (\<forall>f. f \<noteq> ''status'' \<and> f \<noteq> ''rejectionReason'' \<longrightarrow> map_of d' f = map_of d f)
           \<and> field (fromFirestore (i, d')) ''status'' = VStr ''rejected''
           \<and> field (fromFirestore (i, d')) ''rejectionReason'' = VStr reason"
  proof (intro exI [of _ ?d'] conjI allI impI)
    show "field (fromFirestore (i, ?d')) ''status'' = VStr ''rejected''"
      using m by (simp add: field_fromFirestore) (simp add: field_def)
    show "field (fromFirestore (i, ?d')) ''rejectionReason'' = VStr reason"
      using m by (simp add: field_fromFirestore) (simp add: field_def)
  qed (use stored res m in simp_all)
qed

text \<open>On the scenario store, for the listing \<open>L1\<close> and for an id that does not exist.\<close>

theorem rejectListing_stores_reason_witness:
  "storedField (fst (rejectListing nobody scenarioStore ''L1'' ''fake''))
      LISTINGS_COLLECTION ''L1'' ''rejectionReason'' = Some (VStr ''fake'')
   \<and> storedField (fst (rejectListing nobody scenarioStore ''L1'' ''fake''))
      LISTINGS_COLLECTION ''L1'' ''status'' = Some (VStr ''rejected'')
   \<and> rejectListing nobody scenarioStore ''L0'' ''fake''
      = (scenarioStore, Inl (FirebaseError NotFound))"
proof -
  have there: "getDoc scenarioStore LISTINGS_COLLECTION ''L1'' = Some listingL1"
    by (simp add: getDoc_def scenarioStore_def LISTINGS_COLLECTION_def)
  have missing: "getDoc scenarioStore LISTINGS_COLLECTION ''L0'' = None"
    by (simp add: getDoc_def scenarioStore_def LISTINGS_COLLECTION_def)
  from rejectListing_stores_reason [of scenarioStore "''L1''" nobody "''fake''"] there
  obtain d' where
    "getDoc (fst (rejectListing nobody scenarioStore ''L1'' ''fake'')) LISTINGS_COLLECTION ''L1''
       = Some d'"
    "map_of d' ''status'' = Some (VStr ''rejected'')"
    "map_of d' ''rejectionReason'' = Some (VStr ''fake'')"
    by blast
  moreover from rejectListing_stores_reason [of scenarioStore "''L0''" nobody "''fake''"] missing
  have "rejectListing nobody scenarioStore ''L0'' ''fake''
          = (scenarioStore, Inl (FirebaseError NotFound))"
    by blast
  ultimately show ?thesis
    by (simp add: storedField_def)
qed

text \<open>
  C1 as stated fails: rejecting \<open>L1\<close> with the empty reason is no error. The call succeeds
  and the store has committed one update that sets status \<open>rejected\<close> and an empty reason.
  And a reason does not make the call succeed for every listing id: for \<open>L0\<close>, which the
  store does not hold, the update fails.
\<close>

theorem rejectListing_empty_reason_counterexample:
  "\<not> isl (snd (rejectListing nobody scenarioStore ''L1'' []))
   \<and> storedField (fst (rejectListing nobody scenarioStore ''L1'' []))
        LISTINGS_COLLECTION ''L1'' ''status'' = Some (VStr ''rejected'')
   \<and> storedField (fst (rejectListing nobody scenarioStore ''L1'' []))
        LISTINGS_COLLECTION ''L1'' ''rejectionReason'' = Some (VStr [])
   \<and> writeLog (fst (rejectListing nobody scenarioStore ''L1'' []))
        = [UpdateDoc LISTINGS_COLLECTION ''L1''
             [(''status'', VStr ''rejected''), (''rejectionReason'', VStr [])]]
   \<and> rejectListing nobody scenarioStore ''L0'' ''blurry photo''
        = (scenarioStore, Inl (FirebaseError NotFound))"
  by (simp add: rejectListing_def updateListing_cases Let_def refusedUpdate_def invalidPath_def
        invalidName_def reservedName_def FIELD_PATH_RESERVED_def getDoc_def
        storedField_def scenarioStore_def listingL1_def LISTINGS_COLLECTION_def nobody_def
        updateDoc_def mergeInto_def resolveData_def applyChanges_def)

lemma approveListing_refused:
  "approveListing others db i = (db, Inl (FirebaseError InvalidArgument))"
  by (simp add: approveListing_def updateListing_cases refusedUpdate_def)

text \<open>
  C4. \<open>approveListing\<close> hands the store the change \<open>rejectionReason: undefined\<close>, which the
  store refuses as invalid data, whatever the listing. On the scenario store the rejected
  listing \<open>L1\<close> stays rejected, with its reason: the call yields no active listing and clears
  nothing.
\<close>

theorem approveListing_scenario:
  "approveListing nobody scenarioStore ''L1'' = (scenarioStore, Inl (FirebaseError InvalidArgument))
   \<and> storedField (fst (approveListing nobody scenarioStore ''L1'')) LISTINGS_COLLECTION ''L1'' ''status''
       = Some (VStr ''rejected'')
   \<and> storedField (fst (approveListing nobody scenarioStore ''L1'')) LISTINGS_COLLECTION ''L1''
       ''rejectionReason'' = Some (VStr ''blurry photo'')"
  by (simp add: approveListing_refused storedField_def getDoc_def scenarioStore_def
        listingL1_def LISTINGS_COLLECTION_def)

section \<open>Submitting an edit\<close>

lemma handleSubmit_cases:
  assumes "field initial ''id'' = VStr i"
  shows "handleSubmit isAdminEdit (Some initial) others db productData =
     (let updatedProductData =
            AList.update ''status''
              (if \<not> isAdminEdit then status_value PENDING else field productData ''status'')
              productData;
          res = updateListing others db i updatedProductData
      in (fst res,
          if isl (snd res) then \<lparr>isSubmitting = False, failed = True, navigatedTo = None\<rparr>
          else \<lparr>isSubmitting = False, failed = False,
                 navigatedTo = Some (if isAdminEdit then ''/admin/manage-listings''
                                     else ''/my-listings'')\<rparr>))"
  using assms
  by (auto simp: handleSubmit_def Let_def split: prod.splits sum.splits)

lemma keys_update_plain:
  "list_all plainKey (map fst u) \<Longrightarrow> plainKey k \<Longrightarrow>
   list_all plainKey (map fst (AList.update k v u))"
  by (induction u) auto

lemma handleSubmit_refused:
  assumes "field initial ''id'' = VStr i"
    and "refusedUpdate (AList.delete ''userId''
           (AList.update ''status''
              (if \<not> isAdminEdit then status_value PENDING else field productData ''status'')
              productData))"
  shows "handleSubmit isAdminEdit (Some initial) others db productData
           = (db, \<lparr>isSubmitting = False, failed = True, navigatedTo = None\<rparr>)"
  using assms(2) by (simp add: handleSubmit_cases [OF assms(1)] Let_def updateListing_cases)

text \<open>
  C2, as amended. For a listing that exists, whatever its status was, a submission that is
  not an admin edit and whose form data the store accepts (plain field names, no value
  \<open>undefined\<close>) writes the listing with status \<open>pending\<close>, whatever the form holds (its own
  status field included), and goes to the owner's listings; an admin edit of that kind
  writes the status that the form holds. When the store refuses the form data, the owner's
  and the admin's submission alike write nothing: the store, and with it the status, stays
  as it was, and the page shows the failure.
\<close>

theorem handleSubmit_status:
  assumes "field initial ''id'' = VStr i"
    and "getDoc db LISTINGS_COLLECTION i = Some d"
  shows
   "(refusedUpdate (AList.delete ''userId''
          (AList.update ''status'' (status_value PENDING) productData)) \<longrightarrow>
       handleSubmit False (Some initial) others db productData
         = (db, \<lparr>isSubmitting = False, failed = True, navigatedTo = None\<rparr>))
    \<and> (list_all plainKey (map fst productData)
        \<and> \<not> refusedUpdate (AList.delete ''userId''
              (AList.update ''status'' (status_value PENDING) productData)) \<longrightarrow>
       storedField (fst (handleSubmit False (Some initial) nobody db productData))
           LISTINGS_COLLECTION i ''status'' = Some (VStr ''pending'')
       \<and> snd (handleSubmit False (Some initial) nobody db productData)
           = \<lparr>isSubmitting = False, failed = False, navigatedTo = Some ''/my-listings''\<rparr>)
    \<and> (refusedUpdate (AList.delete ''userId''
          (AList.update ''status'' (field productData ''status'') productData)) \<longrightarrow>
       handleSubmit True (Some initial) others db productData
         = (db, \<lparr>isSubmitting = False, failed = True, navigatedTo = None\<rparr>))
    \<and> (list_all plainKey (map fst productData)
        \<and> map_of productData ''status'' = Some (status_value s)
        \<and> \<not> refusedUpdate (AList.delete ''userId'' productData) \<longrightarrow>
       storedField (fst (handleSubmit True (Some initial) nobody db productData))
           LISTINGS_COLLECTION i ''status'' = Some (status_value s)
       \<and> snd (handleSubmit True (Some initial) nobody db productData)
           = \<lparr>isSubmitting = False, failed = False,
               navigatedTo = Some ''/admin/manage-listings''\<rparr>)"
proof (intro conjI impI)
  assume "refusedUpdate (AList.delete ''userId''
          (AList.update ''status'' (status_value PENDING) productData))"
  then show "handleSubmit False (Some initial) others db productData
         = (db, \<lparr>isSubmitting = False, failed = True, navigatedTo = None\<rparr>)"
    using handleSubmit_refused [OF assms(1), of False productData others db] by simp
next
  assume "refusedUpdate (AList.delete ''userId''
          (AList.update ''status'' (field productData ''status'') productData))"
  then show "handleSubmit True (Some initial) others db productData
         = (db, \<lparr>isSubmitting = False, failed = True, navigatedTo = None\<rparr>)"
    using handleSubmit_refused [OF assms(1), of True productData others db] by simp
next
  let ?u = "AList.update ''status'' (status_value PENDING) productData"
  assume a: "list_all plainKey (map fst productData) \<and> \<not> refusedUpdate (AList.delete ''userId'' ?u)"
  then have nu: "\<not> refusedUpdate (AList.delete ''userId'' ?u)"
    by simp
  have plain: "list_all plainKey (map fst ?u)"
    using a by (intro keys_update_plain) (simp_all add: plainKey_def)
  have st: "map_of ?u ''status'' = Some (VStr ''pending'')"
    by (simp add: AList.update_conv')
  have ok: "\<not> isl (snd (updateListing nobody db i ?u))"
    using updateListing_written [OF nu assms(2)] by simp
  show "storedField (fst (handleSubmit False (Some initial) nobody db productData))
           LISTINGS_COLLECTION i ''status'' = Some (VStr ''pending'')"
    using storedField_updateListing [OF nu assms(2) plain _ st]
    by (simp add: handleSubmit_cases [OF assms(1)] Let_def)
  show "snd (handleSubmit False (Some initial) nobody db productData)
           = \<lparr>isSubmitting = False, failed = False, navigatedTo = Some ''/my-listings''\<rparr>"
    using ok by (simp add: handleSubmit_cases [OF assms(1)] Let_def)
next
  assume a: "list_all plainKey (map fst productData)
        \<and> map_of productData ''status'' = Some (status_value s)
        \<and> \<not> refusedUpdate (AList.delete ''userId'' productData)"
  let ?u = "AList.update ''status'' (field productData ''status'') productData"
  have same: "?u = productData"
    using a by (simp add: field_def AList.update_triv)
  have nu: "\<not> refusedUpdate (AList.delete ''userId'' productData)"
    using a by simp
  have plain: "list_all plainKey (map fst productData)"
    using a by simp
  have ns: "resolveValue (serverTime db) (status_value s) = status_value s"
    by (cases s) simp_all
  have ok: "\<not> isl (snd (updateListing nobody db i productData))"
    using updateListing_written [OF nu assms(2)] by simp
  show "storedField (fst (handleSubmit True (Some initial) nobody db productData))
           LISTINGS_COLLECTION i ''status'' = Some (status_value s)"
    using storedField_updateListing [OF nu assms(2) plain _ _ ns, of "''status''"] a same
    by (simp add: handleSubmit_cases [OF assms(1)] Let_def)
  show "snd (handleSubmit True (Some initial) nobody db productData)
           = \<lparr>isSubmitting = False, failed = False,
               navigatedTo = Some ''/admin/manage-listings''\<rparr>"
    using ok same by (simp add: handleSubmit_cases [OF assms(1)] Let_def)
qed

lemma scenario_initial:
  "getDoc scenarioStore LISTINGS_COLLECTION ''L1'' = Some listingL1
   \<and> getListingById scenarioStore ''L1'' = Some (fromFirestore (''L1'', listingL1))
   \<and> field (fromFirestore (''L1'', listingL1)) ''id'' = VStr ''L1''
   \<and> storedField scenarioStore LISTINGS_COLLECTION ''L1'' ''status'' = Some (VStr ''rejected'')"
  by (simp add: getListingById_def getDoc_def storedField_def scenarioStore_def
        LISTINGS_COLLECTION_def fromFirestore_def field_def listingL1_def)

text \<open>The rejected listing \<open>L1\<close>, edited with a form that says \<open>active\<close>: the owner's edit
  stores \<open>pending\<close>, the admin's edit stores \<open>active\<close>. With a contact field that is
  \<open>undefined\<close> the store is left as it was.\<close>

theorem handleSubmit_status_witness:
  "storedField scenarioStore LISTINGS_COLLECTION ''L1'' ''status'' = Some (VStr ''rejected'')
   \<and> storedField
        (fst (handleSubmit False (getListingById scenarioStore ''L1'') nobody scenarioStore
               [(''title'', VStr ''bicycle''), (''status'', VStr ''active'')]))
        LISTINGS_COLLECTION ''L1'' ''status'' = Some (VStr ''pending'')
   \<and> storedField
        (fst (handleSubmit True (getListingById scenarioStore ''L1'') nobody scenarioStore
               [(''title'', VStr ''bicycle''), (''status'', VStr ''active'')]))
        LISTINGS_COLLECTION ''L1'' ''status'' = Some (VStr ''active'')
   \<and> fst (handleSubmit True (getListingById scenarioStore ''L1'') nobody scenarioStore
               [(''title'', VStr ''bicycle''), (''contactInfo'', VUndefined)])
        = scenarioStore"
proof -
  have there: "getDoc scenarioStore LISTINGS_COLLECTION ''L1'' = Some listingL1"
    and init: "getListingById scenarioStore ''L1'' = Some (fromFirestore (''L1'', listingL1))"
    and ident: "field (fromFirestore (''L1'', listingL1)) ''id'' = VStr ''L1''"
    and before: "storedField scenarioStore LISTINGS_COLLECTION ''L1'' ''status''
        = Some (VStr ''rejected'')"
    using scenario_initial by simp_all
  show ?thesis
    using handleSubmit_status [OF ident there,
        of "[(''title'', VStr ''bicycle''), (''status'', VStr ''active'')]" nobody ACTIVE]
      handleSubmit_status [OF ident there,
        of "[(''title'', VStr ''bicycle''), (''contactInfo'', VUndefined)]" nobody ACTIVE]
      before
    by (simp add: init refusedUpdate_def invalidPath_def invalidName_def reservedName_def
          FIELD_PATH_RESERVED_def plainKey_def field_def)
qed

text \<open>
  C2 as stated fails: an owner's edit does not always write. The form value
  \<open>{title: 'bicycle', contactInfo: undefined}\<close> is in the type of the form data; the store
  refuses it, nothing is written, and the listing \<open>L1\<close> keeps its status \<open>rejected\<close>.
\<close>

theorem handleSubmit_undefined_field_counterexample:
  "storedField scenarioStore LISTINGS_COLLECTION ''L1'' ''status'' = Some (VStr ''rejected'')
   \<and> handleSubmit False (getListingById scenarioStore ''L1'') nobody scenarioStore
        [(''title'', VStr ''bicycle''), (''contactInfo'', VUndefined)]
      = (scenarioStore, \<lparr>isSubmitting = False, failed = True, navigatedTo = None\<rparr>)"
  using scenario_initial
  by (simp add: handleSubmit_cases Let_def updateListing_cases refusedUpdate_def)

section \<open>Sending a message\<close>

text \<open>
  C8. With an empty sender id or an empty receiver id \<open>sendMessage\<close> fails with the
  required-field error and leaves the store as it was. With both ids the call fails only if
  the new identifier is taken, without a write. When it succeeds, the stored message and the
  returned one have the given listing id, sender, receiver and text and \<open>read = false\<close>; the
  stored one has the server's time, the returned one has \<open>Date.now()\<close> in its place.
\<close>

theorem sendMessage_requires_both_ids:
  "(senderId = [] \<or> receiverId = [] \<longrightarrow>
      sendMessage cl db adId senderId receiverId txt
        = (db, Inl (Error ''Sender and Receiver ID are required to send a message.'')))
   \<and> (senderId \<noteq> [] \<and> receiverId \<noteq> [] \<longrightarrow>
        (isl (snd (sendMessage cl db adId senderId receiverId txt)) \<longleftrightarrow>
           getDoc db MESSAGES_COLLECTION (autoId (random cl)) \<noteq> None)
        \<and> (isl (snd (sendMessage cl db adId senderId receiverId txt)) \<longrightarrow>
             fst (sendMessage cl db adId senderId receiverId txt) = db)
        \<and> (\<not> isl (snd (sendMessage cl db adId senderId receiverId txt)) \<longrightarrow>
             snd (sendMessage cl db adId senderId receiverId txt)
               = Inr [(''adId'', VStr adId), (''senderId'', VStr senderId),
                      (''receiverId'', VStr receiverId), (''text'', VStr txt),
                      (''timestamp'', VNum (dateNow cl)), (''read'', VBool False),
                      (''id'', VStr (autoId (random cl)))]
             \<and> getDoc (fst (sendMessage cl db adId senderId receiverId txt))
                  MESSAGES_COLLECTION (autoId (random cl))
               = Some [(''adId'', VStr adId), (''senderId'', VStr senderId),
                       (''receiverId'', VStr receiverId), (''text'', VStr txt),
                       (''timestamp'', VTimestamp (serverTime db)), (''read'', VBool False)]
             \<and> writeLog (fst (sendMessage cl db adId senderId receiverId txt))
               = writeLog db @
                   [AddDoc MESSAGES_COLLECTION (autoId (random cl))
                      [(''adId'', VStr adId), (''senderId'', VStr senderId),
                       (''receiverId'', VStr receiverId), (''text'', VStr txt),
                       (''timestamp'', VServerTimestamp), (''read'', VBool False)]]))"
proof (intro conjI impI)
  assume "senderId = [] \<or> receiverId = []"
  then show "sendMessage cl db adId senderId receiverId txt
        = (db, Inl (Error ''Sender and Receiver ID are required to send a message.''))"
    by (auto simp: sendMessage_def)
next
  let ?save = "[(''adId'', VStr adId), (''senderId'', VStr senderId),
                (''receiverId'', VStr receiverId), (''text'', VStr txt),
                (''timestamp'', VServerTimestamp), (''read'', VBool False)]"
  let ?new = "autoId (random cl)"
  assume ids: "senderId \<noteq> [] \<and> receiverId \<noteq> []"
  have nu: "\<not> refusedData ?save"
    by (simp add: refusedData_def invalidName_def reservedName_def)
  have unfold: "sendMessage cl db adId senderId receiverId txt =
      (case addDoc cl db MESSAGES_COLLECTION ?save of
         (db', Inl e) \<Rightarrow> (db', Inl e)
       | (db', Inr docId) \<Rightarrow>
           (db', Inr (AList.update ''read'' (VBool False)
                       (AList.update ''timestamp'' (VNum (dateNow cl))
                         (AList.update ''id'' (VStr docId) ?save)))))"
    using ids by (simp add: sendMessage_def split: prod.splits sum.splits)
  show "isl (snd (sendMessage cl db adId senderId receiverId txt)) \<longleftrightarrow>
          getDoc db MESSAGES_COLLECTION ?new \<noteq> None"
    using nu by (simp add: unfold addDoc_cases)
  show "fst (sendMessage cl db adId senderId receiverId txt) = db"
    if "isl (snd (sendMessage cl db adId senderId receiverId txt))"
    using that nu by (simp add: unfold addDoc_cases split: if_splits)
  assume ok: "\<not> isl (snd (sendMessage cl db adId senderId receiverId txt))"
  then have fresh: "getDoc db MESSAGES_COLLECTION ?new = None"
    using nu by (simp add: unfold addDoc_cases split: if_splits)
  show "snd (sendMessage cl db adId senderId receiverId txt)
        = Inr [(''adId'', VStr adId), (''senderId'', VStr senderId),
               (''receiverId'', VStr receiverId), (''text'', VStr txt),
               (''timestamp'', VNum (dateNow cl)), (''read'', VBool False),
               (''id'', VStr ?new)]"
    using nu fresh by (simp add: unfold addDoc_cases)
  show "getDoc (fst (sendMessage cl db adId senderId receiverId txt)) MESSAGES_COLLECTION ?new
        = Some [(''adId'', VStr adId), (''senderId'', VStr senderId),
                (''receiverId'', VStr receiverId), (''text'', VStr txt),
                (''timestamp'', VTimestamp (serverTime db)), (''read'', VBool False)]"
    using getDoc_addDoc [OF nu fresh] nu fresh
    by (simp add: unfold addDoc_cases resolveData_def)
  show "writeLog (fst (sendMessage cl db adId senderId receiverId txt))
        = writeLog db @ [AddDoc MESSAGES_COLLECTION ?new ?save]"
    using nu fresh by (simp add: unfold addDoc_cases)
qed

text \<open>No sender, no receiver, and a message from \<open>u1\<close> to \<open>u2\<close>.\<close>

theorem sendMessage_requires_both_ids_witness:
  "sendMessage scenarioClient scenarioStore ''L1'' [] ''u2'' ''hi''
     = (scenarioStore, Inl (Error ''Sender and Receiver ID are required to send a message.''))
   \<and> sendMessage scenarioClient scenarioStore ''L1'' ''u1'' [] ''hi''
     = (scenarioStore, Inl (Error ''Sender and Receiver ID are required to send a message.''))
   \<and> snd (sendMessage scenarioClient scenarioStore ''L1'' ''u1'' ''u2'' ''hi'')
     = Inr [(''adId'', VStr ''L1''), (''senderId'', VStr ''u1''), (''receiverId'', VStr ''u2''),
            (''text'', VStr ''hi''), (''timestamp'', VNum 4990), (''read'', VBool False),
            (''id'', VStr (autoId (random scenarioClient)))]
   \<and> getDoc (fst (sendMessage scenarioClient scenarioStore ''L1'' ''u1'' ''u2'' ''hi''))
        MESSAGES_COLLECTION (autoId (random scenarioClient))
     = Some [(''adId'', VStr ''L1''), (''senderId'', VStr ''u1''), (''receiverId'', VStr ''u2''),
             (''text'', VStr ''hi''), (''timestamp'', VTimestamp 5000), (''read'', VBool False)]"
  using sendMessage_requires_both_ids [of "[]" "''u2''" scenarioClient scenarioStore "''L1''" "''hi''"]
    sendMessage_requires_both_ids [of "''u1''" "[]" scenarioClient scenarioStore "''L1''" "''hi''"]
    sendMessage_requires_both_ids
      [of "''u1''" "''u2''" scenarioClient scenarioStore "''L1''" "''hi''"]
  by (simp add: scenario_message_free) (simp add: scenarioClient_def scenarioStore_def)

section \<open>Marking messages read\<close>

lemma unreadQuery_filter:
  "unreadQuery db adId readerId
     = filter (\<lambda>de. unreadFor adId readerId (snd de)) (docs db MESSAGES_COLLECTION)"
  by (auto simp: unreadQuery_def whereEq_def unreadFor_def intro: filter_cong)

text \<open>
  C5. In a message collection with unique identifiers, \<open>markMessagesAsRead\<close> queries exactly
  the messages of the listing that are addressed to the reader and unread, and sets
  \<open>read = true\<close> on exactly those: every other document, the reader's own messages among
  them, and every other collection stay as they are. The updates reach the store as one
  batch, which is committed whole. (For the empty reader id the code returns at once; the
  statement covers it when no unread message is addressed to the empty id.)
\<close>

theorem markMessagesAsRead_marks_exactly:
  assumes "distinct (map fst (docs db MESSAGES_COLLECTION))"
    and "readerId \<noteq> [] \<or> unreadQuery db adId readerId = []"
  shows "unreadQuery db adId readerId
           = filter (\<lambda>de. unreadFor adId readerId (snd de)) (docs db MESSAGES_COLLECTION)
    \<and> markMessagesAsRead db adId readerId =
        (db\<lparr>docs := (docs db)(MESSAGES_COLLECTION :=
                 map (markedRead adId readerId) (docs db MESSAGES_COLLECTION)),
            writeLog := writeLog db @
              (if unreadQuery db adId readerId = [] then []
               else [Batch (map (\<lambda>de. (MESSAGES_COLLECTION, fst de, [(''read'', VBool True)]))
                              (unreadQuery db adId readerId))])\<rparr>,
         Inr ())"
proof (rule conjI [OF unreadQuery_filter])
  let ?ds = "docs db MESSAGES_COLLECTION"
  let ?xs = "unreadQuery db adId readerId"
  show "markMessagesAsRead db adId readerId =
        (db\<lparr>docs := (docs db)(MESSAGES_COLLECTION := map (markedRead adId readerId) ?ds),
            writeLog := writeLog db @
              (if ?xs = [] then []
               else [Batch (map (\<lambda>de. (MESSAGES_COLLECTION, fst de, [(''read'', VBool True)])) ?xs)])\<rparr>,
         Inr ())"
  proof (cases "?xs = []")
    case True
    then have "\<forall>de \<in> set ?ds. \<not> unreadFor adId readerId (snd de)"
      by (simp add: unreadQuery_filter filter_empty_conv)
    then have "map (markedRead adId readerId) ?ds = ?ds"
      by (intro map_idI) (simp add: markedRead_def)
    then show ?thesis
      using True by (simp add: markMessagesAsRead_def)
  next
    case False
    then have reader: "readerId \<noteq> []"
      using assms(2) by simp
    have sub: "set ?xs \<subseteq> set ?ds"
      by (auto simp: unreadQuery_filter)
    have marked: "map (\<lambda>de. if fst de \<in> fst ` set ?xs
                      then (fst de, AList.update ''read'' (VBool True) (snd de)) else de) ?ds
        = map (markedRead adId readerId) ?ds"
      using key_in_filter [OF assms(1)]
      by (intro map_cong) (simp_all add: unreadQuery_filter markedRead_def)
    have "markMessagesAsRead db adId readerId
        = commitBatch db
            (map (\<lambda>de. (MESSAGES_COLLECTION, fst de, [(''read'', VBool True)])) ?xs)"
      using False reader by (simp add: markMessagesAsRead_def Let_def)
    then show ?thesis
      using False by (simp only: commitBatch_read [OF sub] marked if_False)
  qed
qed

text \<open>Reader \<open>u2\<close> on listing \<open>L1\<close>: \<open>m1\<close> is marked, \<open>m2\<close> (sent by \<open>u2\<close>) and \<open>m3\<close> (another
  listing) are not, and the store has committed one batch with one update.\<close>

theorem markMessagesAsRead_marks_exactly_witness:
  "storedField (fst (markMessagesAsRead scenarioStore ''L1'' ''u2''))
       MESSAGES_COLLECTION ''m1'' ''read'' = Some (VBool True)
   \<and> storedField (fst (markMessagesAsRead scenarioStore ''L1'' ''u2''))
       MESSAGES_COLLECTION ''m2'' ''read'' = Some (VBool False)
   \<and> getDoc (fst (markMessagesAsRead scenarioStore ''L1'' ''u2'')) MESSAGES_COLLECTION ''m3''
       = getDoc scenarioStore MESSAGES_COLLECTION ''m3''
   \<and> writeLog (fst (markMessagesAsRead scenarioStore ''L1'' ''u2''))
       = [Batch [(MESSAGES_COLLECTION, ''m1'', [(''read'', VBool True)])]]"
proof -
  have ids: "distinct (map fst (docs scenarioStore MESSAGES_COLLECTION))"
    by (simp add: scenarioStore_def MESSAGES_COLLECTION_def)
  have reader: "''u2'' \<noteq> [] \<or> unreadQuery scenarioStore ''L1'' ''u2'' = []"
    by simp
  have q: "unreadQuery scenarioStore ''L1'' ''u2''
         = [(''m1'', message ''L1'' ''u1'' ''u2'' ''still there?'' 2000 False)]"
    by (simp add: unreadQuery_def whereEq_def scenarioStore_def MESSAGES_COLLECTION_def
          message_def)
  show ?thesis
    using markMessagesAsRead_marks_exactly [OF ids reader]
    by (simp add: q storedField_def getDoc_def)
       (simp add: scenarioStore_def MESSAGES_COLLECTION_def markedRead_def unreadFor_def
          message_def)
qed

text \<open>
  C10. If the reader id is empty, or no message of the listing is addressed to the reader
  with its read flag false, \<open>markMessagesAsRead\<close> returns without a write: the store it
  leaves is the store it found, the log of committed writes included.
\<close>

theorem markMessagesAsRead_no_write:
  "readerId = []
   \<or> list_all (\<lambda>de. \<not> unreadFor adId readerId (snd de)) (docs db MESSAGES_COLLECTION) \<Longrightarrow>
   markMessagesAsRead db adId readerId = (db, Inr ())"
proof (cases "readerId = []")
  case True
  then show ?thesis
    by (simp add: markMessagesAsRead_def)
next
  case False
  assume "readerId = []
   \<or> list_all (\<lambda>de. \<not> unreadFor adId readerId (snd de)) (docs db MESSAGES_COLLECTION)"
  with False have "unreadQuery db adId readerId = []"
    by (simp add: unreadQuery_filter filter_empty_conv list_all_iff)
  then show ?thesis
    by (simp add: markMessagesAsRead_def)
qed

text \<open>The empty reader id, and reader \<open>u1\<close> on listing \<open>L2\<close>, whose only message \<open>u1\<close>
  sent.\<close>

theorem markMessagesAsRead_no_write_witness:
  "markMessagesAsRead scenarioStore ''L1'' [] = (scenarioStore, Inr ())
   \<and> markMessagesAsRead scenarioStore ''L2'' ''u1'' = (scenarioStore, Inr ())"
proof -
  have "list_all (\<lambda>de. \<not> unreadFor ''L2'' ''u1'' (snd de))
          (docs scenarioStore MESSAGES_COLLECTION)"
    by (simp add: scenarioStore_def MESSAGES_COLLECTION_def message_def unreadFor_def)
  then show ?thesis
    using markMessagesAsRead_no_write [of "[]" "''L1''" scenarioStore]
      markMessagesAsRead_no_write [of "''u1''" "''L2''" scenarioStore]
    by simp
qed

section \<open>The messages of a conversation\<close>

lemma field_messageFromFirestore:
  "f \<noteq> ''id'' \<Longrightarrow> f \<noteq> ''timestamp'' \<Longrightarrow>
   map_of (messageFromFirestore de) f = map_of (snd de) f"
  by (simp add: messageFromFirestore_def Let_def AList.update_conv')

lemma participant_messageFromFirestore:
  "(field (messageFromFirestore de) ''senderId'' = VStr u
      \<or> field (messageFromFirestore de) ''receiverId'' = VStr u)
   \<longleftrightarrow> participant u (snd de)"
  by (auto simp: field_def field_messageFromFirestore participant_def split: option.splits)

lemma millisOf_messageFromFirestore:
  assumes "hasServerTime (snd de)"
  shows "order_key (field (snd de) ''timestamp'') = (3, millisOf (messageFromFirestore de))"
  using assms
  by (auto simp: hasServerTime_def millisOf_def messageFromFirestore_def field_def toMillis_def
        Let_def AList.update_conv' split: option.splits fvalue.splits)

lemma sorted_by_rank:
  "sorted (map (\<lambda>x. (r::nat, f x :: int)) xs) \<Longrightarrow> sorted (map f xs)"
  by (induction xs) auto

text \<open>
  C6. When every stored message carries a server timestamp, \<open>getMessagesForAd\<close> returns
  exactly the stored messages of the listing in which the user is sender or receiver, each
  once, and in ascending order of time. (For the empty user id the code returns nothing; the
  statement covers it when no stored message has a blank sender or receiver.)
\<close>

theorem getMessagesForAd_conversation:
  assumes "list_all (\<lambda>de. hasServerTime (snd de)) (docs db MESSAGES_COLLECTION)"
    and "currentUserId \<noteq> []
         \<or> \<not> list_ex (\<lambda>de. participant [] (snd de)) (docs db MESSAGES_COLLECTION)"
  shows "mset (getMessagesForAd db adId currentUserId)
           = mset (map messageFromFirestore
                    (filter (\<lambda>de. map_of (snd de) ''adId'' = Some (VStr adId)
                                  \<and> participant currentUserId (snd de))
                       (docs db MESSAGES_COLLECTION)))
    \<and> sorted (map millisOf (getMessagesForAd db adId currentUserId))"
proof (cases "currentUserId = []")
  case True
  then have "\<forall>de \<in> set (docs db MESSAGES_COLLECTION). \<not> participant currentUserId (snd de)"
    using assms(2) by (simp add: list_ex_iff)
  then have "filter (\<lambda>de. map_of (snd de) ''adId'' = Some (VStr adId)
                          \<and> participant currentUserId (snd de))
               (docs db MESSAGES_COLLECTION) = []"
    by (simp add: filter_empty_conv)
  then show ?thesis
    using True by (simp add: getMessagesForAd_def)
next
  case False
  let ?ds = "docs db MESSAGES_COLLECTION"
  let ?key = "\<lambda>de. order_key (field (snd de) ''timestamp'')"
  let ?ad = "filter (\<lambda>de. map_of (snd de) ''adId'' = Some (VStr adId)) ?ds"
  let ?sorted = "sort_key ?key ?ad"
  have timed: "\<forall>de \<in> set ?ds. hasServerTime (snd de)"
    using assms(1) by (simp add: list_all_iff)
  then have "\<forall>de \<in> set ?ad. map_of (snd de) ''timestamp'' \<noteq> None"
    by (auto simp: hasServerTime_def split: option.splits)
  then have present: "filter (\<lambda>de. map_of (snd de) ''timestamp'' \<noteq> None) ?ad = ?ad"
    by (simp only: filter_id_conv)
  have ordered: "orderByAsc ''timestamp'' (whereEq ''adId'' (VStr adId) ?ds) = ?sorted"
    using present by (simp add: orderByAsc_def whereEq_def)
  have result: "getMessagesForAd db adId currentUserId
      = map messageFromFirestore (filter (\<lambda>de. participant currentUserId (snd de)) ?sorted)"
    using False
    by (simp add: getMessagesForAd_def ordered filter_map comp_def
          participant_messageFromFirestore)
  have "mset (filter (\<lambda>de. participant currentUserId (snd de)) ?sorted)
      = mset (filter (\<lambda>de. map_of (snd de) ''adId'' = Some (VStr adId)
                           \<and> participant currentUserId (snd de)) ?ds)"
    by (simp add: filter_filter_mset conj_commute)
  then have exact: "mset (getMessagesForAd db adId currentUserId)
      = mset (map messageFromFirestore
               (filter (\<lambda>de. map_of (snd de) ''adId'' = Some (VStr adId)
                             \<and> participant currentUserId (snd de)) ?ds))"
    by (simp only: result mset_map)
  have "sorted (map ?key ?sorted)"
    by (rule sorted_sort_key)
  moreover have "map ?key ?sorted = map (\<lambda>de. (3, millisOf (messageFromFirestore de))) ?sorted"
    using timed by (intro map_cong) (auto simp: millisOf_messageFromFirestore)
  ultimately have "sorted (map (\<lambda>de. millisOf (messageFromFirestore de)) ?sorted)"
    using sorted_by_rank [of 3 "\<lambda>de. millisOf (messageFromFirestore de)" ?sorted] by simp
  then have "sorted (map (\<lambda>de. millisOf (messageFromFirestore de))
                      (filter (\<lambda>de. participant currentUserId (snd de)) ?sorted))"
    by (rule sorted_filter)
  then have "sorted (map millisOf (getMessagesForAd db adId currentUserId))"
    by (simp add: result comp_def)
  with exact show ?thesis by simp
qed

text \<open>User \<open>u2\<close> on listing \<open>L1\<close> gets \<open>m1\<close> before \<open>m2\<close>, though the store enumerates \<open>m2\<close>
  first.\<close>

theorem getMessagesForAd_conversation_witness:
  "map (\<lambda>msg. (field msg ''id'', millisOf msg)) (getMessagesForAd scenarioStore ''L1'' ''u2'')
      = [(VStr ''m1'', 2000), (VStr ''m2'', 3000)]
   \<and> sorted (map millisOf (getMessagesForAd scenarioStore ''L1'' ''u2''))
   \<and> mset (getMessagesForAd scenarioStore ''L1'' [])
       = mset (map messageFromFirestore
                (filter (\<lambda>de. map_of (snd de) ''adId'' = Some (VStr ''L1'')
                              \<and> participant [] (snd de))
                   (docs scenarioStore MESSAGES_COLLECTION)))"
proof -
  have "''u2'' \<noteq> []
      \<or> \<not> list_ex (\<lambda>de. participant [] (snd de)) (docs scenarioStore MESSAGES_COLLECTION)"
    by simp
  from getMessagesForAd_conversation [OF scenario_timed this, of "''L1''"]
  have one: "sorted (map millisOf (getMessagesForAd scenarioStore ''L1'' ''u2''))"
    by simp
  have "[] \<noteq> ([]::string)
      \<or> \<not> list_ex (\<lambda>de. participant [] (snd de)) (docs scenarioStore MESSAGES_COLLECTION)"
    using scenario_participants by simp
  from getMessagesForAd_conversation [OF scenario_timed this, of "''L1''"]
  have two: "mset (getMessagesForAd scenarioStore ''L1'' [])
       = mset (map messageFromFirestore
                (filter (\<lambda>de. map_of (snd de) ''adId'' = Some (VStr ''L1'')
                              \<and> participant [] (snd de))
                   (docs scenarioStore MESSAGES_COLLECTION)))"
    by simp
  have three: "map (\<lambda>msg. (field msg ''id'', millisOf msg))
                 (getMessagesForAd scenarioStore ''L1'' ''u2'')
      = [(VStr ''m1'', 2000), (VStr ''m2'', 3000)]"
    by (simp add: getMessagesForAd_def orderByAsc_def whereEq_def scenarioStore_def
          MESSAGES_COLLECTION_def message_def field_def messageFromFirestore_def millisOf_def
          toMillis_def)
  from one two three show ?thesis by simp
qed

section \<open>The chats of a user\<close>

lemma foldl_setAdd:
  "distinct acc \<Longrightarrow>
   distinct (foldl setAdd acc xs) \<and> set (foldl setAdd acc xs) = set acc \<union> set xs"
  by (induction xs arbitrary: acc) (auto simp: setAdd_def)

text \<open>
  C7. The listing ids that \<open>getChatsForUser\<close> returns are distinct, and as a set they are
  the listing ids of the messages the user sent together with those of the messages the user
  received. (For the empty user id the code returns nothing; the statement covers it when
  no stored message has a blank sender or receiver.)
\<close>

theorem getChatsForUser_distinct_union:
  assumes "userId \<noteq> []
           \<or> \<not> list_ex (\<lambda>de. participant [] (snd de)) (docs db MESSAGES_COLLECTION)"
  shows "distinct (getChatsForUser db userId)
    \<and> set (getChatsForUser db userId)
        = (\<lambda>de. field (snd de) ''adId'') `
            {de \<in> set (docs db MESSAGES_COLLECTION).
               map_of (snd de) ''senderId'' = Some (VStr userId)}
          \<union> (\<lambda>de. field (snd de) ''adId'') `
            {de \<in> set (docs db MESSAGES_COLLECTION).
               map_of (snd de) ''receiverId'' = Some (VStr userId)}"
proof (cases "userId = []")
  case True
  then have "\<forall>de \<in> set (docs db MESSAGES_COLLECTION). \<not> participant [] (snd de)"
    using assms by (simp add: list_ex_iff)
  then show ?thesis
    using True by (auto simp: getChatsForUser_def participant_def)
next
  case False
  let ?sent = "map (\<lambda>d. field (snd d) ''adId'')
                 (whereEq ''senderId'' (VStr userId) (docs db MESSAGES_COLLECTION))"
  let ?received = "map (\<lambda>d. field (snd d) ''adId'')
                 (whereEq ''receiverId'' (VStr userId) (docs db MESSAGES_COLLECTION))"
  have first: "distinct (foldl setAdd [] ?sent) \<and> set (foldl setAdd [] ?sent) = set ?sent"
    using foldl_setAdd [of "[]" ?sent] by simp
  have "getChatsForUser db userId = foldl setAdd (foldl setAdd [] ?sent) ?received"
    using False by (simp add: getChatsForUser_def Let_def)
  then have "distinct (getChatsForUser db userId)
      \<and> set (getChatsForUser db userId) = set ?sent \<union> set ?received"
    using foldl_setAdd [of "foldl setAdd [] ?sent" ?received] first by simp
  then show ?thesis
    by (simp add: whereEq_def)
qed

text \<open>User \<open>u2\<close> received two messages about \<open>L1\<close> and \<open>L2\<close> and sent one about \<open>L1\<close>.\<close>

theorem getChatsForUser_distinct_union_witness:
  "getChatsForUser scenarioStore ''u2'' = [VStr ''L1'', VStr ''L2'']
   \<and> distinct (getChatsForUser scenarioStore ''u2'')
   \<and> set (getChatsForUser scenarioStore ''u2'')
        = (\<lambda>de. field (snd de) ''adId'') `
            {de \<in> set (docs scenarioStore MESSAGES_COLLECTION).
               map_of (snd de) ''senderId'' = Some (VStr ''u2'')}
          \<union> (\<lambda>de. field (snd de) ''adId'') `
            {de \<in> set (docs scenarioStore MESSAGES_COLLECTION).
               map_of (snd de) ''receiverId'' = Some (VStr ''u2'')}"
proof -
  have "''u2'' \<noteq> []
      \<or> \<not> list_ex (\<lambda>de. participant [] (snd de)) (docs scenarioStore MESSAGES_COLLECTION)"
    by simp
  note inst = getChatsForUser_distinct_union [OF this]
  have "getChatsForUser scenarioStore ''u2'' = [VStr ''L1'', VStr ''L2'']"
    by (simp add: getChatsForUser_def whereEq_def scenarioStore_def MESSAGES_COLLECTION_def
          message_def field_def setAdd_def)
  with inst show ?thesis by simp
qed

section \<open>The message collection under the chat service\<close>

text \<open>
  The theorems about reading and marking messages assume a message collection with unique
  identifiers, server timestamps and named participants. An empty collection is one, and
  the two writing operations of the chat service keep it one.
\<close>

lemma chatStoreOk_empty:
  "docs db MESSAGES_COLLECTION = [] \<Longrightarrow> chatStoreOk db"
  by (simp add: chatStoreOk_def)

lemma chatStoreOk_sendMessage:
  assumes "chatStoreOk db"
  shows "chatStoreOk (fst (sendMessage cl db adId senderId receiverId txt))"
proof (cases "senderId = [] \<or> receiverId = []
              \<or> getDoc db MESSAGES_COLLECTION (autoId (random cl)) \<noteq> None")
  case True
  then have "fst (sendMessage cl db adId senderId receiverId txt) = db"
    by (auto simp: sendMessage_def addDoc_cases refusedData_def invalidName_def reservedName_def)
  then show ?thesis using assms by simp
next
  case False
  then have fresh: "autoId (random cl) \<notin> fst ` set (docs db MESSAGES_COLLECTION)"
    by (simp add: getDoc_def map_of_eq_None_iff)
  have "docs (fst (sendMessage cl db adId senderId receiverId txt)) MESSAGES_COLLECTION
      = docs db MESSAGES_COLLECTION @
          [(autoId (random cl),
            [(''adId'', VStr adId), (''senderId'', VStr senderId),
             (''receiverId'', VStr receiverId), (''text'', VStr txt),
             (''timestamp'', VTimestamp (serverTime db)), (''read'', VBool False)])]"
    using False
    by (simp add: sendMessage_def addDoc_cases refusedData_def invalidName_def reservedName_def
          resolveData_def)
  then show ?thesis
    using assms False fresh
    by (simp add: chatStoreOk_def hasServerTime_def participant_def)
qed

lemma map_fst_marked:
  "map (fst \<circ> (\<lambda>de. if P de then (fst de, g de) else de)) ds = map fst ds"
  by (induction ds) auto

lemma chatStoreOk_markMessagesAsRead:
  assumes "chatStoreOk db"
  shows "chatStoreOk (fst (markMessagesAsRead db adId readerId))"
proof (cases "readerId = [] \<or> unreadQuery db adId readerId = []")
  case True
  then show ?thesis
    using assms by (auto simp: markMessagesAsRead_def)
next
  case False
  have sub: "set (unreadQuery db adId readerId) \<subseteq> set (docs db MESSAGES_COLLECTION)"
    by (auto simp: unreadQuery_filter)
  have "fst (markMessagesAsRead db adId readerId)
      = fst (commitBatch db
          (map (\<lambda>de. (MESSAGES_COLLECTION, fst de, [(''read'', VBool True)]))
            (unreadQuery db adId readerId)))"
    using False by (simp add: markMessagesAsRead_def Let_def)
  then show ?thesis
    using assms
    by (simp only: commitBatch_read [OF sub])
       (auto simp: chatStoreOk_def map_fst_marked list_all_iff list_ex_iff hasServerTime_def
          participant_def AList.update_conv')
qed

lemma chatStoreOk_scenario: "chatStoreOk scenarioStore"
  using scenario_timed scenario_participants
  by (simp add: chatStoreOk_def) (simp add: scenarioStore_def MESSAGES_COLLECTION_def)


end
